theory Spec2Isabelle
  imports Main "HOL-Library.Sublist"
begin

section \<open>Python strings\<close>

text \<open>
  A Python \<open>str\<close> is modelled as a \<open>string\<close> holding its UTF-8 encoding. Concatenation,
  \<open>startswith\<close>, \<open>split\<close> and the substring test \<open>in\<close> give the same answers on the
  encoding as on the code points, since no UTF-8 encoded text occurs inside another one
  except at a code point boundary. The Korean literals of \<open>app.py\<close> are written as
  their bytes.
\<close>

type_synonym bytes = string

definition startswith :: "string \<Rightarrow> string \<Rightarrow> bool" where
  "startswith s p = prefix p s"

text \<open>\<open>sub in s\<close>: \<open>sub\<close> occurs in \<open>s\<close> as a contiguous substring.\<close>

fun py_in :: "string \<Rightarrow> string \<Rightarrow> bool" where
  "py_in sub [] = (sub = [])"
| "py_in sub (c # cs) = (prefix sub (c # cs) \<or> py_in sub cs)"

text \<open>
  \<open>c.lower()\<close>. The ASCII capitals are mapped to their small letters and every other
  byte is kept. Python also changes letters outside ASCII, each into text outside ASCII
  again, into \<open>k\<close> (the Kelvin sign) or into \<open>i\<close> followed by a combining dot (the
  dotted capital I); none of these adds or removes an occurrence of \<open>serial\<close>, the only
  thing \<open>app.py\<close> line 77 looks for in a lowered name.
\<close>

definition lower_char :: "char \<Rightarrow> char" where
  "lower_char c =
     (if (65::nat) \<le> of_char c \<and> of_char c \<le> (90::nat)
      then char_of (of_char c + (32::nat)) else c)"

definition lower :: "string \<Rightarrow> string" where
  "lower s = map lower_char s"

text \<open>
  \<open>s.split(sep, 1)\<close> for a non-empty \<open>sep\<close>: the text before the first occurrence of
  \<open>sep\<close> and the text after it, or \<open>s\<close> alone when \<open>sep\<close> does not occur.
\<close>

fun split1 :: "string \<Rightarrow> string \<Rightarrow> string list" where
  "split1 sep [] = [[]]"
| "split1 sep (c # cs) =
     (if prefix sep (c # cs) then [[], drop (length sep) (c # cs)]
      else (case split1 sep cs of [] \<Rightarrow> [] | a # rest \<Rightarrow> (c # a) # rest))"

section \<open>Exceptions and user interface events\<close>

datatype error =
    KeyError string
  | ValueError string
  | IndexError string
  | DecodeError string
  | OSError string

text \<open>\<open>str(exc)\<close>, as the f-strings of \<open>app.py\<close> print an exception.\<close>

fun exc_text :: "error \<Rightarrow> string" where
  "exc_text (KeyError k) = [CHR 0x27] @ k @ [CHR 0x27]"
| "exc_text (ValueError m) = m"
| "exc_text (IndexError m) = m"
| "exc_text (DecodeError m) = m"
| "exc_text (OSError m) = m"

text \<open>What the script shows: \<open>st.error\<close>, \<open>st.warning\<close>, \<open>st.info\<close>.\<close>

datatype ui = St_error string | St_warning string | St_info string

section \<open>Tables\<close>

text \<open>
  A cell of a \<open>DataFrame\<close> is text, a number or the missing value (NaN). Numbers are
  kept abstract (the type variable \<open>'n\<close>): their floating point arithmetic and their
  dtypes are not modelled. A table is its column labels, in order, and its rows, each a
  list of cells in column order; the row index is the position in the list, which is
  what \<open>ignore_index=True\<close> gives. Column labels are text: the script calls
  \<open>lower()\<close> on every label (lines 77, 160 and 161).
\<close>

datatype 'n cell = Text string | Num 'n | Missing

record 'n dataframe =
  columns :: "string list"
  rows :: "'n cell list list"

text \<open>
  The tables the decoders return have distinct column labels (\<open>read_excel\<close> and
  \<open>read_csv\<close> rename a repeated header) and rows as wide as the header.
\<close>

definition wf_df :: "'n dataframe \<Rightarrow> bool" where
  "wf_df df = (distinct (columns df) \<and> list_all (\<lambda>r. length r = length (columns df)) (rows df))"

text \<open>The cell of row \<open>r\<close> under the label \<open>c\<close>, when the row has one.\<close>

definition row_get :: "string list \<Rightarrow> 'n cell list \<Rightarrow> string \<Rightarrow> 'n cell option" where
  "row_get cols r c = map_of (zip cols r) c"

text \<open>\<open>len(df)\<close> and \<open>df.empty\<close> (an axis of length 0).\<close>

definition len :: "'n dataframe \<Rightarrow> nat" where
  "len df = length (rows df)"

definition empty_df :: "'n dataframe \<Rightarrow> bool" where
  "empty_df df = (columns df = [] \<or> rows df = [])"

subsection \<open>\<open>pd.concat(frames, ignore_index=True)\<close>\<close>

text \<open>
  The result's columns are the union of the frames' columns, each label at its first
  appearance; every row is realigned to them by label, and a label its frame does not
  have gets the missing value. An empty list of frames raises \<open>ValueError\<close>. The
  frames are taken to have distinct labels each, as the decoders return them. A number
  keeps its value; that pandas may change its dtype (a column of integers that gets a
  missing value becomes floating point) is not modelled.
\<close>

fun union_cols :: "string list \<Rightarrow> string list \<Rightarrow> string list" where
  "union_cols acc [] = acc"
| "union_cols acc (c # cs) = union_cols (if c \<in> set acc then acc else acc @ [c]) cs"

definition union_columns :: "'n dataframe list \<Rightarrow> string list" where
  "union_columns frames = foldl union_cols [] (map columns frames)"

definition reindex_row :: "string list \<Rightarrow> string list \<Rightarrow> 'n cell list \<Rightarrow> 'n cell list" where
  "reindex_row src dst r =
     map (\<lambda>c. case row_get src r c of Some v \<Rightarrow> v | None \<Rightarrow> Missing) dst"

definition pd_concat :: "'n dataframe list \<Rightarrow> error + 'n dataframe" where
  "pd_concat frames =
     (if frames = [] then Inl (ValueError ''No objects to concatenate'')
      else Inr \<lparr>columns = union_columns frames,
                rows = concat (map (\<lambda>f. map (reindex_row (columns f) (union_columns frames)) (rows f))
                                   frames)\<rparr>)"

section \<open>Loading and merging the uploads\<close>

text \<open>
  An uploaded file: its name and the bytes \<open>f.read()\<close> returns. The two decoders of
  pandas are parameters: each returns a table or raises.
\<close>

record uploaded_file =
  name :: string
  content :: bytes

type_synonym 'n decoder = "bytes \<Rightarrow> error + 'n dataframe"

text \<open>\<open>load_excel_or_csv\<close> (lines 46-51): the spreadsheet decoder, and on any exception the
  delimited-text decoder, whose exception is the caller's.\<close>

definition load_excel_or_csv :: "'n decoder \<Rightarrow> 'n decoder \<Rightarrow> bytes \<Rightarrow> error + 'n dataframe" where
  "load_excel_or_csv read_excel read_csv file_bytes =
     (case read_excel file_bytes of
        Inr df \<Rightarrow> Inr df
      | Inl _ \<Rightarrow> read_csv file_bytes)"

text \<open>The text between the file name and the exception in the message of line 61
  (a space, two Korean words for "read error", a colon and a space).\<close>

definition read_error_text :: string where
  "read_error_text =
     [CHR 0x20, CHR 0xEC, CHR 0x9D, CHR 0xBD, CHR 0xEA, CHR 0xB8, CHR 0xB0, CHR 0x20,
      CHR 0xEC, CHR 0x98, CHR 0xA4, CHR 0xEB, CHR 0xA5, CHR 0x98, CHR 0x3A, CHR 0x20]"

text \<open>
  The loop of \<open>concat_uploads\<close> (lines 55-62), with \<open>frames\<close> as its accumulator: at the
  first file that does not decode it shows the error and returns \<open>None\<close>.
\<close>

fun read_frames ::
  "'n decoder \<Rightarrow> 'n decoder \<Rightarrow> uploaded_file list \<Rightarrow> 'n dataframe list
     \<Rightarrow> ui list \<times> 'n dataframe list option" where
  "read_frames read_excel read_csv [] frames = ([], Some frames)"
| "read_frames read_excel read_csv (f # fs) frames =
     (case load_excel_or_csv read_excel read_csv (content f) of
        Inr df \<Rightarrow> read_frames read_excel read_csv fs (frames @ [df])
      | Inl exc \<Rightarrow> ([St_error (name f @ read_error_text @ exc_text exc)], None))"

text \<open>
  \<open>concat_uploads\<close> (lines 54-65) returns what it showed and either an exception, \<open>None\<close>
  or the merged table.
\<close>

definition concat_uploads ::
  "'n decoder \<Rightarrow> 'n decoder \<Rightarrow> uploaded_file list \<Rightarrow> ui list \<times> (error + 'n dataframe option)" where
  "concat_uploads read_excel read_csv files =
     (case read_frames read_excel read_csv files [] of
        (shown, None) \<Rightarrow> (shown, Inr None)
      | (shown, Some frames) \<Rightarrow>
          if frames = [] then (shown, Inr None)
          else (case pd_concat frames of
                  Inl e \<Rightarrow> (shown, Inl e)
                | Inr df \<Rightarrow> (shown, Inr (Some df))))"

text \<open>
  The top of the script's table part (lines 122-127 and 220-221). With no uploaded file
  it shows the upload prompt and ends. Otherwise it merges the files; when the merge
  returned \<open>None\<close> or an empty table it shows a warning and \<open>st.stop()\<close> ends the
  run; an exception of \<open>concat_uploads\<close> ends the run as well.
\<close>

definition empty_warning_text :: string where
  "empty_warning_text =
     [CHR 0xEB, CHR 0x8D, CHR 0xB0, CHR 0xEC, CHR 0x9D, CHR 0xB4, CHR 0xED, CHR 0x84,
      CHR 0xB0, CHR 0xEA, CHR 0xB0, CHR 0x80, CHR 0x20, CHR 0xEB, CHR 0xB9, CHR 0x84,
      CHR 0xEC, CHR 0x96, CHR 0xB4, CHR 0x20, CHR 0xEC, CHR 0x9E, CHR 0x88, CHR 0xEA,
      CHR 0xB1, CHR 0xB0, CHR 0xEB, CHR 0x82, CHR 0x98, CHR 0x20, CHR 0xEC, CHR 0x9D,
      CHR 0xBD, CHR 0xEA, CHR 0xB8, CHR 0xB0, CHR 0xEC, CHR 0x97, CHR 0x90, CHR 0x20,
      CHR 0xEC, CHR 0x8B, CHR 0xA4, CHR 0xED, CHR 0x8C, CHR 0xA8, CHR 0xED, CHR 0x96,
      CHR 0x88, CHR 0xEC, CHR 0x8A, CHR 0xB5, CHR 0xEB, CHR 0x8B, CHR 0x88, CHR 0xEB,
      CHR 0x8B, CHR 0xA4, CHR 0x2E]"

definition upload_prompt_text :: string where
  "upload_prompt_text =
     [CHR 0xEC, CHR 0xA2, CHR 0x8C, CHR 0xEC, CHR 0xB8, CHR 0xA1, CHR 0xEC, CHR 0x9D,
      CHR 0x98, CHR 0x20, CHR 0xEC, CHR 0x97, CHR 0x85, CHR 0xEB, CHR 0xA1, CHR 0x9C,
      CHR 0xEB, CHR 0x93, CHR 0x9C, CHR 0x20, CHR 0xEC, CHR 0x98, CHR 0x81, CHR 0xEC,
      CHR 0x97, CHR 0xAD, CHR 0xEC, CHR 0x9D, CHR 0x84, CHR 0x20, CHR 0xED, CHR 0x86,
      CHR 0xB5, CHR 0xED, CHR 0x95, CHR 0xB4, CHR 0x20, CHR 0xEC, CHR 0x97, CHR 0xAC,
      CHR 0xEB, CHR 0x9F, CHR 0xAC, CHR 0x20, CHR 0xEC, CHR 0x97, CHR 0x91, CHR 0xEC,
      CHR 0x85, CHR 0x80, CHR 0x2F, CHR 0x43, CHR 0x53, CHR 0x56, CHR 0x20, CHR 0xED,
      CHR 0x8C, CHR 0x8C, CHR 0xEC, CHR 0x9D, CHR 0xBC, CHR 0xEC, CHR 0x9D, CHR 0x84,
      CHR 0x20, CHR 0xEC, CHR 0x98, CHR 0xAC, CHR 0xEB, CHR 0xA0, CHR 0xA4, CHR 0x20,
      CHR 0xEC, CHR 0xA3, CHR 0xBC, CHR 0xEC, CHR 0x84, CHR 0xB8, CHR 0xEC, CHR 0x9A,
      CHR 0x94, CHR 0x2E]"

datatype 'n outcome =
    Raised error
  | Stopped
  | No_upload
  | Merged "'n dataframe"

definition script_merge ::
  "'n decoder \<Rightarrow> 'n decoder \<Rightarrow> uploaded_file list \<Rightarrow> ui list \<times> 'n outcome" where
  "script_merge read_excel read_csv uploaded_files =
     (if uploaded_files \<noteq> [] then
        (case concat_uploads read_excel read_csv uploaded_files of
           (shown, Inl e) \<Rightarrow> (shown, Raised e)
         | (shown, Inr None) \<Rightarrow> (shown @ [St_warning empty_warning_text], Stopped)
         | (shown, Inr (Some df)) \<Rightarrow>
             if empty_df df then (shown @ [St_warning empty_warning_text], Stopped)
             else (shown, Merged df))
      else ([St_info upload_prompt_text], No_upload))"

section \<open>Columns as series\<close>

text \<open>
  \<open>df[col]\<close> reads a column as the list of its cells, one per row, and raises
  \<open>KeyError\<close> for a label the table does not have. \<open>df[col] = series\<close> writes the series
  into the column, row by row through the shared index (a row the series does not reach
  gets the missing value), and appends the column when the label is new.
\<close>

definition cell_of :: "'n dataframe \<Rightarrow> 'n cell list \<Rightarrow> string \<Rightarrow> 'n cell" where
  "cell_of df r col = (case row_get (columns df) r col of Some v \<Rightarrow> v | None \<Rightarrow> Missing)"

definition getitem :: "'n dataframe \<Rightarrow> string \<Rightarrow> error + 'n cell list" where
  "getitem df col =
     (if col \<in> set (columns df) then Inr (map (\<lambda>r. cell_of df r col) (rows df))
      else Inl (KeyError col))"

definition set_cell :: "string list \<Rightarrow> string \<Rightarrow> 'n cell \<Rightarrow> 'n cell list \<Rightarrow> 'n cell list" where
  "set_cell cols col v r = map (\<lambda>(c, x). if c = col then v else x) (zip cols r)"

definition setitem :: "'n dataframe \<Rightarrow> string \<Rightarrow> 'n cell list \<Rightarrow> 'n dataframe" where
  "setitem df col series =
     (let aligned = take (length (rows df)) (series @ replicate (length (rows df)) Missing)
      in if col \<in> set (columns df)
         then df\<lparr>rows := map (\<lambda>(r, v). set_cell (columns df) col v r) (zip (rows df) aligned)\<rparr>
         else \<lparr>columns = columns df @ [col],
               rows = map (\<lambda>(r, v). r @ [v]) (zip (rows df) aligned)\<rparr>)"

text \<open>
  \<open>str(x)\<close> of a cell, as an f-string prints it: a text is itself, the missing value
  (the float NaN) is \<open>nan\<close>, and the text of a number is a parameter.
\<close>

fun str_cell :: "('n \<Rightarrow> string) \<Rightarrow> 'n cell \<Rightarrow> string" where
  "str_cell str_num (Text s) = s"
| "str_cell str_num (Num n) = str_num n"
| "str_cell str_num Missing = ''nan''"

text \<open>
  \<open>series.astype(str)\<close> makes a series of texts: a text stays, a number becomes its
  \<open>str\<close>. What becomes of a missing cell depends on the pandas that is installed, and
  the repository pins none: before pandas 3 it becomes the text \<open>nan\<close>, from pandas 3
  on it stays missing. A cell of the new series is \<open>Some\<close> text or \<open>None\<close>, the
  missing value.
\<close>

datatype pandas_version = Before_3 | From_3

fun astype_str_cell :: "pandas_version \<Rightarrow> ('n \<Rightarrow> string) \<Rightarrow> 'n cell \<Rightarrow> string option" where
  "astype_str_cell pd str_num (Text s) = Some s"
| "astype_str_cell pd str_num (Num n) = Some (str_num n)"
| "astype_str_cell Before_3 str_num Missing = Some ''nan''"
| "astype_str_cell From_3 str_num Missing = None"

definition astype_str ::
  "pandas_version \<Rightarrow> ('n \<Rightarrow> string) \<Rightarrow> 'n cell list \<Rightarrow> string option list" where
  "astype_str pd str_num series = map (astype_str_cell pd str_num) series"

text \<open>
  \<open>fixed + series\<close> and \<open>series + fixed\<close> on a series of texts: each text gets the
  fixed text in front or behind, and a missing cell stays missing.
\<close>

definition str_radd :: "string \<Rightarrow> string option list \<Rightarrow> string option list" where
  "str_radd fixed series = map (map_option (\<lambda>s. fixed @ s)) series"

definition str_add :: "string option list \<Rightarrow> string \<Rightarrow> string option list" where
  "str_add series fixed = map (map_option (\<lambda>s. s @ fixed)) series"

text \<open>A series of texts as the cells of a column.\<close>

definition text_cells :: "string option list \<Rightarrow> 'n cell list" where
  "text_cells series = map (\<lambda>v. case v of Some s \<Rightarrow> Text s | None \<Rightarrow> Missing) series"

text \<open>\<open>xs[i]\<close> on a Python list, for an index that is not negative.\<close>

definition item :: "'a list \<Rightarrow> nat \<Rightarrow> error + 'a" where
  "item xs i = (if i < length xs then Inr (xs ! i) else Inl (IndexError ''list index out of range''))"

section \<open>The serial number rule\<close>

definition serial_token :: string where
  "serial_token =
     [CHR 0xEC, CHR 0x8B, CHR 0x9C, CHR 0xEB, CHR 0xA6, CHR 0xAC, CHR 0xEC, CHR 0x96,
      CHR 0xBC]"

text \<open>The test of line 77 on one column label, and the labels that pass it, in column order.\<close>

definition is_serial_col :: "string \<Rightarrow> bool" where
  "is_serial_col c = (py_in ''serial'' (lower c) \<or> py_in serial_token c)"

definition serial_cols :: "'n dataframe \<Rightarrow> string list" where
  "serial_cols df = filter is_serial_col (columns df)"

text \<open>
  \<open>apply_serial_rule\<close> (lines 71-87). The function writes into the table it was given and
  returns it; the model returns the table after the write. The pandas that is installed
  is a parameter, for \<open>astype(str)\<close>.
\<close>

definition apply_serial_rule ::
  "pandas_version \<Rightarrow> ('n \<Rightarrow> string) \<Rightarrow> 'n dataframe \<Rightarrow> string \<Rightarrow> error + 'n dataframe" where
  "apply_serial_rule pd str_num df rule =
     (case serial_cols df of
        [] \<Rightarrow> Inr df
      | col # _ \<Rightarrow>
          if startswith rule ''prefix='' then
            (case item (split1 ''prefix='' rule) 1 of
               Inl e \<Rightarrow> Inl e
             | Inr fixed \<Rightarrow>
                 (case getitem df col of
                    Inl e \<Rightarrow> Inl e
                  | Inr series \<Rightarrow>
                      Inr (setitem df col (text_cells (str_radd fixed (astype_str pd str_num series))))))
          else if startswith rule ''suffix='' then
            (case item (split1 ''suffix='' rule) 1 of
               Inl e \<Rightarrow> Inl e
             | Inr fixed \<Rightarrow>
                 (case getitem df col of
                    Inl e \<Rightarrow> Inl e
                  | Inr series \<Rightarrow>
                      Inr (setitem df col (text_cells (str_add (astype_str pd str_num series) fixed)))))
          else Inr df)"

section \<open>The status counts\<close>

definition need_repair_text :: string where
  "need_repair_text =
     [CHR 0xEC, CHR 0x88, CHR 0x98, CHR 0xEB, CHR 0xA6, CHR 0xAC, CHR 0x20, CHR 0xED,
      CHR 0x95, CHR 0x84, CHR 0xEC, CHR 0x9A, CHR 0x94]"

definition to_dispose_text :: string where
  "to_dispose_text =
     [CHR 0xED, CHR 0x8F, CHR 0x90, CHR 0xEA, CHR 0xB8, CHR 0xB0, CHR 0x20, CHR 0xEC,
      CHR 0x98, CHR 0x88, CHR 0xEC, CHR 0xA0, CHR 0x95]"

text \<open>
  \<open>(df[status_col] == text).sum()\<close>: the number of cells of the column that are this
  text. A number and the missing value are equal to no text.
\<close>

definition count_equal :: "'n dataframe \<Rightarrow> string \<Rightarrow> string \<Rightarrow> error + nat" where
  "count_equal df col s =
     (case getitem df col of
        Inl e \<Rightarrow> Inl e
      | Inr series \<Rightarrow> Inr (length (filter (\<lambda>v. v = Text s) series)))"

text \<open>The three metrics of lines 145-147.\<close>

definition total_devices :: "'n dataframe \<Rightarrow> nat" where
  "total_devices df = len df"

definition need_repair :: "'n dataframe \<Rightarrow> string \<Rightarrow> error + nat" where
  "need_repair df status_col = count_equal df status_col need_repair_text"

definition to_dispose :: "'n dataframe \<Rightarrow> string \<Rightarrow> error + nat" where
  "to_dispose df status_col = count_equal df status_col to_dispose_text"

section \<open>The grouped counts\<close>

text \<open>
  \<open>df.groupby(col, dropna=False).size()\<close> is one count for each distinct cell of the
  column, the missing value among them. pandas returns the groups sorted by key; the
  result is read here as a finite map from key to count, an association list whose
  order stands for nothing.
\<close>

definition groupby_size :: "'n dataframe \<Rightarrow> string \<Rightarrow> error + ('n cell \<times> nat) list" where
  "groupby_size df col =
     (case getitem df col of
        Inl e \<Rightarrow> Inl e
      | Inr series \<Rightarrow> Inr (map (\<lambda>k. (k, count_list series k)) (remdups series)))"

text \<open>
  \<open>.reset_index(name="count")\<close> makes a table of the keys, under the label of the
  grouping column, and their counts, under the label \<open>count\<close>. Inserting the key column
  raises \<open>ValueError\<close> when its label is already there, that is when the grouping
  column is itself called \<open>count\<close>.
\<close>

definition reset_index :: "string \<Rightarrow> string \<Rightarrow> ('n cell \<times> nat) list \<Rightarrow> error + ('n cell \<times> nat) list" where
  "reset_index key_label count_label groups =
     (if key_label = count_label
      then Inl (ValueError (''cannot insert '' @ key_label @ '', already exists''))
      else Inr groups)"

text \<open>\<open>dept_count\<close> (line 177) and \<open>type_count\<close> (line 188).\<close>

definition dept_count :: "'n dataframe \<Rightarrow> string \<Rightarrow> error + ('n cell \<times> nat) list" where
  "dept_count df dept_col =
     (case groupby_size df dept_col of
        Inl e \<Rightarrow> Inl e
      | Inr groups \<Rightarrow> reset_index dept_col ''count'' groups)"

definition type_count :: "'n dataframe \<Rightarrow> string \<Rightarrow> error + ('n cell \<times> nat) list" where
  "type_count df type_col =
     (case groupby_size df type_col of
        Inl e \<Rightarrow> Inl e
      | Inr groups \<Rightarrow> reset_index type_col ''count'' groups)"

section \<open>The PDF of the repair list\<close>

text \<open>
  What \<open>get_font_path\<close> depends on: whether the font file is already on disk, and how
  creating the directory and downloading the file end (\<open>None\<close>: both succeed). The
  decorator of line 28 keeps the result of the first call for the later ones.
\<close>

record font_env =
  font_on_disk :: bool
  download :: "error option"

definition font_path :: string where
  "font_path = ''fonts/DejaVuSans.ttf''"

definition font_warning_text :: string where
  "font_warning_text =
     [CHR 0x50, CHR 0x44, CHR 0x46, CHR 0x20, CHR 0xEC, CHR 0x83, CHR 0x9D, CHR 0xEC,
      CHR 0x84, CHR 0xB1, CHR 0xEC, CHR 0x9A, CHR 0xA9, CHR 0x20, CHR 0xED, CHR 0x8F,
      CHR 0xB0, CHR 0xED, CHR 0x8A, CHR 0xB8, CHR 0x20, CHR 0xEC, CHR 0xA4, CHR 0x80,
      CHR 0xEB, CHR 0xB9, CHR 0x84, CHR 0xEC, CHR 0x97, CHR 0x90, CHR 0x20, CHR 0xEC,
      CHR 0x8B, CHR 0xA4, CHR 0xED, CHR 0x8C, CHR 0xA8, CHR 0xED, CHR 0x96, CHR 0x88,
      CHR 0xEC, CHR 0x8A, CHR 0xB5, CHR 0xEB, CHR 0x8B, CHR 0x88, CHR 0xEB, CHR 0x8B,
      CHR 0xA4, CHR 0x3A, CHR 0x20]"

text \<open>\<open>get_font_path\<close> (lines 29-40): the environment after the call, what was shown, and
  the path or \<open>None\<close>.\<close>

definition get_font_path :: "font_env \<Rightarrow> font_env \<times> ui list \<times> string option" where
  "get_font_path env =
     (if font_on_disk env then (env, [], Some font_path)
      else (case download env of
              None \<Rightarrow> (env\<lparr>font_on_disk := True\<rparr>, [], Some font_path)
            | Some exc \<Rightarrow> (env, [St_warning (font_warning_text @ exc_text exc)], None)))"

definition pdf_title :: string where
  "pdf_title =
     [CHR 0xEC, CHR 0x88, CHR 0x98, CHR 0xEB, CHR 0xA6, CHR 0xAC, CHR 0x20, CHR 0xEB,
      CHR 0x8C, CHR 0x80, CHR 0xEC, CHR 0x83, CHR 0x81, CHR 0xEC, CHR 0x9E, CHR 0x90,
      CHR 0x20, CHR 0xEB, CHR 0xAA, CHR 0xA9, CHR 0xEB, CHR 0xA1, CHR 0x9D]"

text \<open>\<open>sep.join(parts)\<close>.\<close>

fun join :: "string \<Rightarrow> string list \<Rightarrow> string" where
  "join sep [] = []"
| "join sep [p] = p"
| "join sep (p # q # ps) = p @ sep @ join sep (q # ps)"

text \<open>The rows of \<open>df[df[status_col] == text]\<close>.\<close>

definition select_equal :: "'n dataframe \<Rightarrow> string \<Rightarrow> string \<Rightarrow> error + 'n dataframe" where
  "select_equal df col s =
     (case getitem df col of
        Inl e \<Rightarrow> Inl e
      | Inr series \<Rightarrow> Inr (df\<lparr>rows := map fst (filter (\<lambda>(r, v). v = Text s) (zip (rows df) series))\<rparr>))"

text \<open>The line of one row (line 105): every column as its label, a colon and the cell.\<close>

definition pdf_line :: "('n \<Rightarrow> string) \<Rightarrow> 'n dataframe \<Rightarrow> 'n cell list \<Rightarrow> string" where
  "pdf_line str_num selected row =
     join '', '' (map (\<lambda>col. col @ '': '' @ str_cell str_num (cell_of selected row col)) (columns selected))"

text \<open>
  The FPDF calls of lines 98-108 are a parameter: from the font file, the title and the
  lines they make the bytes of the document, or raise.
\<close>

type_synonym renderer = "string \<Rightarrow> string \<Rightarrow> string list \<Rightarrow> error + bytes"

text \<open>\<open>build_repair_pdf\<close> (lines 93-108).\<close>

definition build_repair_pdf ::
  "('n \<Rightarrow> string) \<Rightarrow> renderer \<Rightarrow> font_env \<Rightarrow> 'n dataframe \<Rightarrow> string
     \<Rightarrow> font_env \<times> ui list \<times> (error + bytes option)" where
  "build_repair_pdf str_num render env df status_col =
     (case get_font_path env of
        (env', shown, None) \<Rightarrow> (env', shown, Inr None)
      | (env', shown, Some path) \<Rightarrow>
          if path = [] then (env', shown, Inr None)
          else (case select_equal df status_col need_repair_text of
                  Inl e \<Rightarrow> (env', shown, Inl e)
                | Inr selected \<Rightarrow>
                    (case render path pdf_title (map (pdf_line str_num selected) (rows selected)) of
                       Inl e \<Rightarrow> (env', shown, Inl e)
                     | Inr doc \<Rightarrow> (env', shown, Inr (Some doc)))))"

definition pdf_failed_text :: string where
  "pdf_failed_text =
     [CHR 0x50, CHR 0x44, CHR 0x46, CHR 0x20, CHR 0xEC, CHR 0x83, CHR 0x9D, CHR 0xEC,
      CHR 0x84, CHR 0xB1, CHR 0xEC, CHR 0x97, CHR 0x90, CHR 0x20, CHR 0xEC, CHR 0x8B,
      CHR 0xA4, CHR 0xED, CHR 0x8C, CHR 0xA8, CHR 0xED, CHR 0x96, CHR 0x88, CHR 0xEC,
      CHR 0x8A, CHR 0xB5, CHR 0xEB, CHR 0x8B, CHR 0x88, CHR 0xEB, CHR 0x8B, CHR 0xA4,
      CHR 0x2E, CHR 0x20, CHR 0xEC, CHR 0x9D, CHR 0xB8, CHR 0xED, CHR 0x84, CHR 0xB0,
      CHR 0xEB, CHR 0x84, CHR 0xB7, CHR 0x20, CHR 0xEC, CHR 0x97, CHR 0xB0, CHR 0xEA,
      CHR 0xB2, CHR 0xB0, CHR 0xEC, CHR 0x9D, CHR 0x84, CHR 0x20, CHR 0xED, CHR 0x99,
      CHR 0x95, CHR 0xEC, CHR 0x9D, CHR 0xB8, CHR 0x20, CHR 0xED, CHR 0x9B, CHR 0x84,
      CHR 0x20, CHR 0xEB, CHR 0x8B, CHR 0xA4, CHR 0xEC, CHR 0x8B, CHR 0x9C, CHR 0x20,
      CHR 0xEC, CHR 0x8B, CHR 0x9C, CHR 0xEB, CHR 0x8F, CHR 0x84, CHR 0xED, CHR 0x95,
      CHR 0x98, CHR 0xEC, CHR 0x84, CHR 0xB8, CHR 0xEC, CHR 0x9A, CHR 0x94, CHR 0x2E]"

text \<open>
  The button of lines 208-218: what it shows, and the bytes it offers for download as
  \<open>repair_list.pdf\<close>, if any.
\<close>

definition pdf_button ::
  "('n \<Rightarrow> string) \<Rightarrow> renderer \<Rightarrow> font_env \<Rightarrow> 'n dataframe \<Rightarrow> string
     \<Rightarrow> font_env \<times> ui list \<times> (error + bytes option)" where
  "pdf_button str_num render env df status_col =
     (case build_repair_pdf str_num render env df status_col of
        (env', shown, Inl e) \<Rightarrow> (env', shown, Inl e)
      | (env', shown, Inr None) \<Rightarrow> (env', shown @ [St_error pdf_failed_text], Inr None)
      | (env', shown, Inr (Some pdf_bytes)) \<Rightarrow>
          if pdf_bytes = [] then (env', shown @ [St_error pdf_failed_text], Inr None)
          else (env', shown, Inr (Some pdf_bytes)))"

section \<open>Example data\<close>

text \<open>
  Two branch files: A with the rows (A1, normal) and (A2, needs repair), B with the row
  (B1, to be disposed of); a third file that is no table; a file with a header and no
  row. The spreadsheet decoder reads A, the text decoder reads B and the empty file.
\<close>

definition normal_text :: string where
  "normal_text =
     [CHR 0xEC, CHR 0xA0, CHR 0x95, CHR 0xEC, CHR 0x83, CHR 0x81]"

definition table_A :: "nat dataframe" where
  "table_A = \<lparr>columns = [''Name'', ''Status''],
              rows = [[Text ''A1'', Text normal_text], [Text ''A2'', Text need_repair_text]]\<rparr>"

definition table_B :: "nat dataframe" where
  "table_B = \<lparr>columns = [''Name'', ''Status''], rows = [[Text ''B1'', Text to_dispose_text]]\<rparr>"

definition table_C :: "nat dataframe" where
  "table_C = \<lparr>columns = [''Name'', ''Dept''], rows = [[Text ''C1'', Text ''IT'']]\<rparr>"

definition table_0 :: "nat dataframe" where
  "table_0 = \<lparr>columns = [''Name'', ''Status''], rows = []\<rparr>"

definition file_A :: uploaded_file where
  "file_A = \<lparr>name = ''a.xlsx'', content = ''A''\<rparr>"

definition file_B :: uploaded_file where
  "file_B = \<lparr>name = ''b.csv'', content = ''B''\<rparr>"

definition file_C :: uploaded_file where
  "file_C = \<lparr>name = ''c.xlsx'', content = ''C''\<rparr>"

definition file_0 :: uploaded_file where
  "file_0 = \<lparr>name = ''empty.csv'', content = ''0''\<rparr>"

definition file_bad :: uploaded_file where
  "file_bad = \<lparr>name = ''bad.xlsx'', content = ''?''\<rparr>"

definition ex_excel :: "nat decoder" where
  "ex_excel b =
     (if b = ''A'' then Inr table_A else if b = ''C'' then Inr table_C
      else Inl (DecodeError ''File is not a zip file''))"

definition ex_csv :: "nat decoder" where
  "ex_csv b =
     (if b = ''B'' then Inr table_B else if b = ''0'' then Inr table_0
      else Inl (DecodeError ''Error tokenizing data''))"

definition table_serial :: "nat dataframe" where
  "table_serial = \<lparr>columns = [''Name'', ''Serial'', ''serial2''],
                   rows = [[Text ''PC'', Text ''001'', Text ''x''], [Text ''TV'', Num 7, Missing]]\<rparr>"

definition table_gap :: "nat dataframe" where
  "table_gap = \<lparr>columns = [''Name'', ''Serial''],
                rows = [[Text ''PC'', Text ''001''], [Text ''TV'', Missing], [Text ''AP'', Num 7]]\<rparr>"

definition table_count :: "nat dataframe" where
  "table_count = \<lparr>columns = [''count'', ''Status''],
                  rows = [[Num 2, Text need_repair_text], [Num 2, Text normal_text]]\<rparr>"

definition ex_str_num :: "nat \<Rightarrow> string" where
  "ex_str_num n = [char_of (48 + n)]"

definition ex_render :: renderer where
  "ex_render path title lines = Inr (path @ title @ concat lines)"

definition table_AB :: "nat dataframe" where
  "table_AB = \<lparr>columns = [''Name'', ''Status''],
               rows = [[Text ''A1'', Text normal_text], [Text ''A2'', Text need_repair_text],
                       [Text ''B1'', Text to_dispose_text]]\<rparr>"

definition env_offline :: font_env where
  "env_offline = \<lparr>font_on_disk = False, download = Some (OSError ''Network is unreachable'')\<rparr>"

section \<open>Helper lemmas\<close>


lemma read_frames_all:
  "map (\<lambda>f. load_excel_or_csv rx rc (content f)) files = map Inr tables
   \<Longrightarrow> read_frames rx rc files acc = ([], Some (acc @ tables))"
proof (induction files arbitrary: acc tables)
  case Nil
  then show ?case by simp
next
  case (Cons f fs)
  then obtain t ts where ts: "tables = t # ts" by (cases tables) auto
  with Cons.prems have "load_excel_or_csv rx rc (content f) = Inr t"
    and "map (\<lambda>f. load_excel_or_csv rx rc (content f)) fs = map Inr ts" by auto
  with Cons.IH [of ts "acc @ [t]"] ts show ?case by simp
qed

lemma read_frames_fail:
  "\<forall>p\<in>set pre. \<exists>t. load_excel_or_csv rx rc (content p) = Inr t
   \<Longrightarrow> load_excel_or_csv rx rc (content f) = Inl e
   \<Longrightarrow> read_frames rx rc (pre @ f # post) acc
       = ([St_error (name f @ read_error_text @ exc_text e)], None)"
  by (induction pre arbitrary: acc) auto

lemma set_union_cols: "set (union_cols acc cs) = set acc \<union> set cs"
  by (induction cs arbitrary: acc) auto

lemma distinct_union_cols: "distinct acc \<Longrightarrow> distinct (union_cols acc cs)"
  by (induction cs arbitrary: acc) auto

lemma set_foldl_union_cols:
  "set (foldl union_cols acc xss) = set acc \<union> \<Union> (set ` set xss)"
  by (induction xss arbitrary: acc) (auto simp: set_union_cols)

lemma distinct_foldl_union_cols:
  "distinct acc \<Longrightarrow> distinct (foldl union_cols acc xss)"
  by (induction xss arbitrary: acc) (auto simp: distinct_union_cols)

lemma set_union_columns: "set (union_columns frames) = \<Union> (set ` columns ` set frames)"
  by (simp add: union_columns_def set_foldl_union_cols)

lemma distinct_union_columns: "distinct (union_columns frames)"
  by (simp add: union_columns_def distinct_foldl_union_cols)

lemma map_of_zip_map_same: "c \<in> set xs \<Longrightarrow> map_of (zip xs (map f xs)) c = Some (f c)"
  by (induction xs) auto

lemma row_get_reindex:
  "c \<in> set dst \<Longrightarrow>
   row_get dst (reindex_row src dst r) c
     = Some (case row_get src r c of Some v \<Rightarrow> v | None \<Rightarrow> Missing)"
  unfolding reindex_row_def row_get_def [of dst]
  by (rule map_of_zip_map_same)

lemma row_get_Some:
  assumes "length r = length cols" and "c \<in> set cols"
  shows "\<exists>v. row_get cols r c = Some v"
proof -
  from assms(1) have "fst ` set (zip cols r) = set cols"
    by (metis map_fst_zip set_map)
  with assms(2) have "map_of (zip cols r) c \<noteq> None"
    by (simp add: map_of_eq_None_iff)
  then show ?thesis by (auto simp: row_get_def)
qed

lemma row_get_None:
  "c \<notin> set cols \<Longrightarrow> row_get cols r c = None"
  unfolding row_get_def map_of_eq_None_iff
  by (auto dest: set_zip_leftD)

lemma two_filters:
  "(\<And>x. \<not> (P x \<and> Q x)) \<Longrightarrow>
   length (filter P xs) + length (filter Q xs) \<le> length xs
   \<and> (length (filter P xs) + length (filter Q xs) = length xs \<longleftrightarrow> (\<forall>x\<in>set xs. P x \<or> Q x))"
  by (induction xs) auto

lemma status_texts_differ: "need_repair_text \<noteq> to_dispose_text"
  by (simp add: need_repair_text_def to_dispose_text_def)

lemma sum_count_remdups: "sum_list (map (count_list xs) (remdups xs)) = length xs"
proof -
  have "sum_list (map (count_list xs) (remdups xs)) = sum (count_list xs) (set (remdups xs))"
    by (rule sum_list_distinct_conv_sum_set) simp
  also have "\<dots> = length xs" by (simp add: sum_count_set)
  finally show ?thesis .
qed

lemma split1_prefix: "sep \<noteq> [] \<Longrightarrow> split1 sep (sep @ t) = [[], t]"
  by (cases sep) simp_all

lemma startswith_append: "startswith (p @ t) p"
  by (simp add: startswith_def)

lemma startswithD: "startswith s p \<Longrightarrow> s = p @ drop (length p) s"
  by (auto simp: startswith_def prefix_def)

lemma serial_cols_member: "serial_cols df = col # others \<Longrightarrow> col \<in> set (columns df)"
  by (metis filter_is_subset list.set_intros(1) serial_cols_def subsetD)

lemma map_zip_map_same: "map (\<lambda>(r, v). g r v) (zip xs (map h xs)) = map (\<lambda>r. g r (h r)) xs"
  by (induction xs) auto

lemma setitem_existing:
  assumes "col \<in> set (columns df)"
  shows "setitem df col (map (\<lambda>r. h r) (rows df))
     = df\<lparr>rows := map (\<lambda>r. set_cell (columns df) col (h r) r) (rows df)\<rparr>"
  using assms by (simp add: setitem_def map_zip_map_same)

lemma prefix_cells:
  "text_cells (str_radd t (astype_str pd str_num (map h xs)))
     = map (\<lambda>r. case astype_str_cell pd str_num (h r) of Some s \<Rightarrow> Text (t @ s) | None \<Rightarrow> Missing) xs"
  by (simp add: text_cells_def str_radd_def astype_str_def comp_def split: option.split)

lemma suffix_cells:
  "text_cells (str_add (astype_str pd str_num (map h xs)) t)
     = map (\<lambda>r. case astype_str_cell pd str_num (h r) of Some s \<Rightarrow> Text (s @ t) | None \<Rightarrow> Missing) xs"
  by (simp add: text_cells_def str_add_def astype_str_def comp_def split: option.split)

lemma apply_prefix:
  assumes "serial_cols df = col # others"
  shows "apply_serial_rule pd str_num df (''prefix='' @ t)
     = Inr (df\<lparr>rows := map (\<lambda>r. set_cell (columns df) col
               (case astype_str_cell pd str_num (cell_of df r col) of
                  Some s \<Rightarrow> Text (t @ s) | None \<Rightarrow> Missing) r) (rows df)\<rparr>)"
proof -
  have sp: "split1 ''prefix='' (''prefix='' @ t) = [[], t]" by (rule split1_prefix) simp
  have sw: "startswith (''prefix='' @ t) ''prefix=''" by (rule startswith_append)
  from serial_cols_member [OF assms] have mem: "col \<in> set (columns df)" .
  have st: "setitem df col
        (text_cells (str_radd t (astype_str pd str_num (map (\<lambda>r. cell_of df r col) (rows df)))))
      = df\<lparr>rows := map (\<lambda>r. set_cell (columns df) col
               (case astype_str_cell pd str_num (cell_of df r col) of
                  Some s \<Rightarrow> Text (t @ s) | None \<Rightarrow> Missing) r) (rows df)\<rparr>"
    unfolding prefix_cells by (rule setitem_existing [OF mem])
  have it: "item [[], t] 1 = Inr t" by (simp add: item_def)
  from mem have gi: "getitem df col = Inr (map (\<lambda>r. cell_of df r col) (rows df))"
    by (simp add: getitem_def)
  show ?thesis
    by (simp only: apply_serial_rule_def assms list.case sw if_True sp it sum.case gi st)
qed

lemma apply_suffix:
  assumes "serial_cols df = col # others"
  shows "apply_serial_rule pd str_num df (''suffix='' @ t)
     = Inr (df\<lparr>rows := map (\<lambda>r. set_cell (columns df) col
               (case astype_str_cell pd str_num (cell_of df r col) of
                  Some s \<Rightarrow> Text (s @ t) | None \<Rightarrow> Missing) r) (rows df)\<rparr>)"
proof -
  have sp: "split1 ''suffix='' (''suffix='' @ t) = [[], t]" by (rule split1_prefix) simp
  have sw: "startswith (''suffix='' @ t) ''suffix=''" by (rule startswith_append)
  have nsw: "\<not> startswith (''suffix='' @ t) ''prefix=''" by (simp add: startswith_def)
  from serial_cols_member [OF assms] have mem: "col \<in> set (columns df)" .
  have st: "setitem df col
        (text_cells (str_add (astype_str pd str_num (map (\<lambda>r. cell_of df r col) (rows df))) t))
      = df\<lparr>rows := map (\<lambda>r. set_cell (columns df) col
               (case astype_str_cell pd str_num (cell_of df r col) of
                  Some s \<Rightarrow> Text (s @ t) | None \<Rightarrow> Missing) r) (rows df)\<rparr>"
    unfolding suffix_cells by (rule setitem_existing [OF mem])
  have it: "item [[], t] 1 = Inr t" by (simp add: item_def)
  from mem have gi: "getitem df col = Inr (map (\<lambda>r. cell_of df r col) (rows df))"
    by (simp add: getitem_def)
  show ?thesis
    by (simp only: apply_serial_rule_def assms list.case sw nsw if_True if_False sp it sum.case gi st)
qed

lemma apply_other:
  "\<not> startswith rule ''prefix='' \<Longrightarrow> \<not> startswith rule ''suffix=''
   \<Longrightarrow> apply_serial_rule pd str_num df rule = Inr df"
  by (simp add: apply_serial_rule_def split: list.splits)

lemma apply_no_serial: "serial_cols df = [] \<Longrightarrow> apply_serial_rule pd str_num df rule = Inr df"
  by (simp add: apply_serial_rule_def)

text \<open>Whatever the rule, the result is the table itself or the table with new cells in
  the selected column.\<close>

lemma apply_serial_rule_shape:
  assumes "serial_cols df = col # others"
  shows "apply_serial_rule pd str_num df rule = Inr df
     \<or> (\<exists>h. apply_serial_rule pd str_num df rule
            = Inr (df\<lparr>rows := map (\<lambda>r. set_cell (columns df) col (h r) r) (rows df)\<rparr>))"
proof (cases "startswith rule ''prefix=''")
  case True
  from startswithD [OF this] obtain t where "rule = ''prefix='' @ t" ..
  with apply_prefix [OF assms, of pd str_num t]
  have "apply_serial_rule pd str_num df rule
      = Inr (df\<lparr>rows := map (\<lambda>r. set_cell (columns df) col
               ((\<lambda>r. case astype_str_cell pd str_num (cell_of df r col) of
                       Some s \<Rightarrow> Text (t @ s) | None \<Rightarrow> Missing) r) r) (rows df)\<rparr>)"
    by simp
  then show ?thesis by (intro disjI2 exI)
next
  case np: False
  show ?thesis
  proof (cases "startswith rule ''suffix=''")
    case True
    from startswithD [OF this] obtain t where "rule = ''suffix='' @ t" ..
    with apply_suffix [OF assms, of pd str_num t]
    have "apply_serial_rule pd str_num df rule
        = Inr (df\<lparr>rows := map (\<lambda>r. set_cell (columns df) col
                 ((\<lambda>r. case astype_str_cell pd str_num (cell_of df r col) of
                         Some s \<Rightarrow> Text (s @ t) | None \<Rightarrow> Missing) r) r) (rows df)\<rparr>)"
      by simp
    then show ?thesis by (intro disjI2 exI)
  next
    case False
    with np show ?thesis by (simp add: apply_other)
  qed
qed

lemma row_get_set_cell:
  "d \<noteq> col \<Longrightarrow> row_get cols (set_cell cols col v r) d = row_get cols r d"
  unfolding row_get_def set_cell_def
proof (induction cols arbitrary: r)
  case Nil
  then show ?case by simp
next
  case (Cons c cs)
  then show ?case by (cases r) auto
qed

lemma length_set_cell: "length r = length cols \<Longrightarrow> length (set_cell cols col v r) = length r"
  by (simp add: set_cell_def)

lemma nth_set_cell:
  "length r = length cols \<Longrightarrow> j < length cols
   \<Longrightarrow> set_cell cols col v r ! j = (if cols ! j = col then v else r ! j)"
  by (simp add: set_cell_def)

lemma row_get_distinct:
  assumes "distinct cols" and "(c, x) \<in> set (zip cols r)"
  shows "row_get cols r c = Some x"
proof -
  from assms(1) have "distinct (map fst (zip cols r))"
    by (simp add: map_fst_zip_take)
  from map_of_is_SomeI [OF this assms(2)] show ?thesis by (simp add: row_get_def)
qed

lemma set_cell_by_cell:
  assumes "distinct (columns df)"
  shows "set_cell (columns df) col (g (cell_of df r col)) r
     = map (\<lambda>(c, x). if c = col then g x else x) (zip (columns df) r)"
  unfolding set_cell_def
proof (rule map_cong [OF refl])
  fix p assume p: "p \<in> set (zip (columns df) r)"
  obtain c x where cx: "p = (c, x)" by (cases p)
  show "(case p of (c, x) \<Rightarrow> if c = col then g (cell_of df r col) else x)
      = (case p of (c, x) \<Rightarrow> if c = col then g x else x)"
  proof (cases "c = col")
    case True
    with p cx row_get_distinct [OF assms, of col x r] have "cell_of df r col = x"
      by (simp add: cell_of_def)
    with cx show ?thesis by simp
  next
    case False
    with cx show ?thesis by simp
  qed
qed

text \<open>The example data, evaluated.\<close>

lemma serial_cols_table_serial: "serial_cols table_serial = [''Serial'', ''serial2'']"
  by code_simp

lemma ex_str_num_7: "ex_str_num 7 = ''7''"
  by code_simp

lemma serial_cols_table_gap: "serial_cols table_gap = [''Serial'']"
  by code_simp

lemma pdf_line_missing:
  "pdf_line ex_str_num table_gap [Text ''TV'', Missing] = ''Name: TV, Serial: nan''"
  by (simp add: pdf_line_def cell_of_def row_get_def table_gap_def)

lemma no_serial_table_AB:
  "list_all (\<lambda>c. \<not> py_in ''serial'' (lower c) \<and> \<not> py_in serial_token c) (columns table_AB)"
  by code_simp

lemma is_serial_col_examples:
  "\<not> is_serial_col ''Name''" "is_serial_col ''Serial''" "is_serial_col ''serial2''"
  by code_simp+

section \<open>Merging\<close>

lemma concat_uploads_all:
  assumes "files \<noteq> []"
    and "map (\<lambda>f. load_excel_or_csv rx rc (content f)) files = map Inr tables"
  shows "concat_uploads rx rc files =
     ([], Inr (Some \<lparr>columns = union_columns tables,
                     rows = concat (map (\<lambda>t. map (reindex_row (columns t) (union_columns tables)) (rows t))
                                        tables)\<rparr>))"
proof -
  from assms have ne: "tables \<noteq> []" by auto
  have "read_frames rx rc files [] = ([], Some tables)"
    using read_frames_all [OF assms(2), of "[]"] by simp
  with ne show ?thesis by (simp add: concat_uploads_def pd_concat_def)
qed

text \<open>
  C1. When the list of files is not empty and every file decodes, \<open>concat_uploads\<close>
  returns a table; its row count is the sum of the row counts of the decoded tables; its
  rows are the rows of the first table, then those of the second, and so on, each table's
  rows in their own order, realigned to the merged columns; and a realigned row holds,
  under every label of its own table, the cell it held there.
\<close>

theorem concat_uploads_rows:
  assumes "files \<noteq> []"
    and "map (\<lambda>f. load_excel_or_csv read_excel read_csv (content f)) files = map Inr tables"
    and "list_all wf_df tables"
  shows "\<exists>df. concat_uploads read_excel read_csv files = ([], Inr (Some df))
     \<and> len df = sum_list (map len tables)
     \<and> rows df = concat (map (\<lambda>t. map (reindex_row (columns t) (columns df)) (rows t)) tables)
     \<and> (\<forall>t\<in>set tables. \<forall>r\<in>set (rows t). \<forall>c\<in>set (columns t).
          row_get (columns df) (reindex_row (columns t) (columns df) r) c = row_get (columns t) r c)"
proof -
  define df :: "'a dataframe" where
    "df = \<lparr>columns = union_columns tables,
           rows = concat (map (\<lambda>t. map (reindex_row (columns t) (union_columns tables)) (rows t))
                              tables)\<rparr>"
  have ret: "concat_uploads read_excel read_csv files = ([], Inr (Some df))"
    unfolding df_def by (rule concat_uploads_all [OF assms(1,2)])
  have cols: "columns df = union_columns tables" by (simp add: df_def)
  have rws: "rows df = concat (map (\<lambda>t. map (reindex_row (columns t) (columns df)) (rows t)) tables)"
    by (simp add: df_def)
  have "length (rows df) = sum_list (map (\<lambda>t. length (rows t)) tables)"
    unfolding rws by (simp add: length_concat comp_def)
  then have cnt: "len df = sum_list (map len tables)"
    by (simp add: len_def [abs_def])
  have keep: "row_get (columns df) (reindex_row (columns t) (columns df) r) c = row_get (columns t) r c"
    if t: "t \<in> set tables" and r: "r \<in> set (rows t)" and c: "c \<in> set (columns t)" for t r c
  proof -
    from t c have "c \<in> set (columns df)" by (auto simp: cols set_union_columns)
    then have eq: "row_get (columns df) (reindex_row (columns t) (columns df) r) c
        = Some (case row_get (columns t) r c of Some v \<Rightarrow> v | None \<Rightarrow> Missing)"
      by (rule row_get_reindex)
    from assms(3) t r have "length r = length (columns t)"
      by (auto simp: list_all_iff wf_df_def)
    from row_get_Some [OF this c] obtain v where "row_get (columns t) r c = Some v" ..
    with eq show ?thesis by simp
  qed
  from ret cnt rws keep show ?thesis by blast
qed

theorem concat_uploads_rows_witness:
  "[file_A, file_B] \<noteq> []
   \<and> map (\<lambda>f. load_excel_or_csv ex_excel ex_csv (content f)) [file_A, file_B] = map Inr [table_A, table_B]
   \<and> list_all wf_df [table_A, table_B]
   \<and> concat_uploads ex_excel ex_csv [file_A, file_B]
       = ([], Inr (Some \<lparr>columns = [''Name'', ''Status''],
                         rows = [[Text ''A1'', Text normal_text], [Text ''A2'', Text need_repair_text],
                                 [Text ''B1'', Text to_dispose_text]]\<rparr>))
   \<and> sum_list (map len [table_A, table_B]) = 3"
proof -
  have h1: "[file_A, file_B] \<noteq> []" by simp
  have h2: "map (\<lambda>f. load_excel_or_csv ex_excel ex_csv (content f)) [file_A, file_B]
      = map Inr [table_A, table_B]"
    by (simp add: load_excel_or_csv_def ex_excel_def ex_csv_def file_A_def file_B_def)
  have h3: "list_all wf_df [table_A, table_B]"
    by (simp add: wf_df_def table_A_def table_B_def)
  from concat_uploads_rows [OF h1 h2 h3] obtain df where
    ret: "concat_uploads ex_excel ex_csv [file_A, file_B] = ([], Inr (Some df))"
    and cnt: "len df = sum_list (map len [table_A, table_B])"
    and rws: "rows df = concat (map (\<lambda>t. map (reindex_row (columns t) (columns df)) (rows t))
                                    [table_A, table_B])"
    by blast
  have "concat_uploads ex_excel ex_csv [file_A, file_B]
      = ([], Inr (Some \<lparr>columns = [''Name'', ''Status''],
                         rows = [[Text ''A1'', Text normal_text], [Text ''A2'', Text need_repair_text],
                                 [Text ''B1'', Text to_dispose_text]]\<rparr>))"
    by (simp add: concat_uploads_def load_excel_or_csv_def ex_excel_def ex_csv_def file_A_def
        file_B_def pd_concat_def union_columns_def reindex_row_def row_get_def table_A_def table_B_def)
  moreover from this ret cnt have "sum_list (map len [table_A, table_B]) = 3"
    by (auto simp: len_def)
  ultimately show ?thesis using h1 h2 h3 by blast
qed

text \<open>
  C2. When a file of the batch does not decode with either decoder, \<open>concat_uploads\<close>
  returns \<open>None\<close>, whatever the other files are, and shows one error: the name of the
  first file that does not decode, followed by its exception.
\<close>

theorem concat_uploads_abort:
  assumes "f \<in> set files"
    and "read_excel (content f) = Inl e1"
    and "read_csv (content f) = Inl e2"
  shows "\<exists>pre g post e. files = pre @ g # post
     \<and> (\<forall>p\<in>set pre. \<exists>t. load_excel_or_csv read_excel read_csv (content p) = Inr t)
     \<and> load_excel_or_csv read_excel read_csv (content g) = Inl e
     \<and> concat_uploads read_excel read_csv files
         = ([St_error (name g @ read_error_text @ exc_text e)], Inr None)"
proof -
  let ?fails = "\<lambda>g. \<exists>e. load_excel_or_csv read_excel read_csv (content g) = Inl e"
  from assms have "?fails f" by (simp add: load_excel_or_csv_def)
  with assms(1) have "\<exists>g\<in>set files. ?fails g" by blast
  from split_list_first_prop [OF this] obtain pre g post where
    split: "files = pre @ g # post" and g: "?fails g" and pre: "\<forall>p\<in>set pre. \<not> ?fails p"
    by blast
  from g obtain e where e: "load_excel_or_csv read_excel read_csv (content g) = Inl e" ..
  have ok: "\<forall>p\<in>set pre. \<exists>t. load_excel_or_csv read_excel read_csv (content p) = Inr t"
  proof
    fix p assume "p \<in> set pre"
    with pre have "\<not> ?fails p" ..
    then show "\<exists>t. load_excel_or_csv read_excel read_csv (content p) = Inr t"
      by (cases "load_excel_or_csv read_excel read_csv (content p)") auto
  qed
  have "read_frames read_excel read_csv files []
      = ([St_error (name g @ read_error_text @ exc_text e)], None)"
    unfolding split by (rule read_frames_fail [OF ok e])
  then have "concat_uploads read_excel read_csv files
      = ([St_error (name g @ read_error_text @ exc_text e)], Inr None)"
    by (simp add: concat_uploads_def)
  with split ok e show ?thesis by blast
qed

theorem concat_uploads_abort_witness:
  "file_bad \<in> set [file_A, file_bad, file_B]
   \<and> ex_excel (content file_bad) = Inl (DecodeError ''File is not a zip file'')
   \<and> ex_csv (content file_bad) = Inl (DecodeError ''Error tokenizing data'')
   \<and> concat_uploads ex_excel ex_csv [file_A, file_bad, file_B]
       = ([St_error (''bad.xlsx'' @ read_error_text @ ''Error tokenizing data'')], Inr None)"
proof -
  have h1: "file_bad \<in> set [file_A, file_bad, file_B]" by simp
  have h2: "ex_excel (content file_bad) = Inl (DecodeError ''File is not a zip file'')"
    by (simp add: ex_excel_def file_bad_def)
  have h3: "ex_csv (content file_bad) = Inl (DecodeError ''Error tokenizing data'')"
    by (simp add: ex_csv_def file_bad_def)
  from concat_uploads_abort [of file_bad "[file_A, file_bad, file_B]" ex_excel _ ex_csv, OF h1 h2 h3]
  obtain shown where
    "concat_uploads ex_excel ex_csv [file_A, file_bad, file_B] = (shown, Inr None)"
    by blast
  moreover have "fst (concat_uploads ex_excel ex_csv [file_A, file_bad, file_B])
      = [St_error (''bad.xlsx'' @ read_error_text @ ''Error tokenizing data'')]"
    by (simp add: concat_uploads_def load_excel_or_csv_def ex_excel_def ex_csv_def file_A_def
        file_bad_def)
  ultimately show ?thesis using h1 h2 h3 by simp
qed

text \<open>
  C8. The columns of the table \<open>concat_uploads\<close> returns are the union of the columns of
  the decoded tables, each label once; and under a label that a decoded table does not
  have, every row that comes from that table holds the missing value.
\<close>

theorem concat_uploads_columns:
  assumes "files \<noteq> []"
    and "map (\<lambda>f. load_excel_or_csv read_excel read_csv (content f)) files = map Inr tables"
    and "list_all wf_df tables"
  shows "\<exists>df. concat_uploads read_excel read_csv files = ([], Inr (Some df))
     \<and> set (columns df) = \<Union> (set ` columns ` set tables)
     \<and> distinct (columns df)
     \<and> rows df = concat (map (\<lambda>t. map (reindex_row (columns t) (columns df)) (rows t)) tables)
     \<and> (\<forall>t\<in>set tables. \<forall>c\<in>set (columns df). c \<notin> set (columns t) \<longrightarrow>
          (\<forall>r\<in>set (rows t).
             row_get (columns df) (reindex_row (columns t) (columns df) r) c = Some Missing))"
proof -
  define df :: "'a dataframe" where
    "df = \<lparr>columns = union_columns tables,
           rows = concat (map (\<lambda>t. map (reindex_row (columns t) (union_columns tables)) (rows t))
                              tables)\<rparr>"
  have ret: "concat_uploads read_excel read_csv files = ([], Inr (Some df))"
    unfolding df_def by (rule concat_uploads_all [OF assms(1,2)])
  have cols: "columns df = union_columns tables" by (simp add: df_def)
  have rws: "rows df = concat (map (\<lambda>t. map (reindex_row (columns t) (columns df)) (rows t)) tables)"
    by (simp add: df_def)
  have un: "set (columns df) = \<Union> (set ` columns ` set tables)"
    by (simp add: cols set_union_columns)
  have di: "distinct (columns df)" by (simp add: cols distinct_union_columns)
  have miss: "row_get (columns df) (reindex_row (columns t) (columns df) r) c = Some Missing"
    if "c \<in> set (columns df)" and "c \<notin> set (columns t)" for t c r
    using that by (simp add: row_get_reindex row_get_None)
  from ret un di rws miss show ?thesis by blast
qed

theorem concat_uploads_columns_witness:
  "[file_A, file_C] \<noteq> []
   \<and> map (\<lambda>f. load_excel_or_csv ex_excel ex_csv (content f)) [file_A, file_C] = map Inr [table_A, table_C]
   \<and> list_all wf_df [table_A, table_C]
   \<and> concat_uploads ex_excel ex_csv [file_A, file_C]
       = ([], Inr (Some \<lparr>columns = [''Name'', ''Status'', ''Dept''],
                         rows = [[Text ''A1'', Text normal_text, Missing],
                                 [Text ''A2'', Text need_repair_text, Missing],
                                 [Text ''C1'', Missing, Text ''IT'']]\<rparr>))"
proof -
  have h1: "[file_A, file_C] \<noteq> []" by simp
  have h2: "map (\<lambda>f. load_excel_or_csv ex_excel ex_csv (content f)) [file_A, file_C]
      = map Inr [table_A, table_C]"
    by (simp add: load_excel_or_csv_def ex_excel_def ex_csv_def file_A_def file_C_def)
  have h3: "list_all wf_df [table_A, table_C]"
    by (simp add: wf_df_def table_A_def table_C_def)
  from concat_uploads_columns [OF h1 h2 h3] obtain df where
    ret: "concat_uploads ex_excel ex_csv [file_A, file_C] = ([], Inr (Some df))"
    and "set (columns df) = \<Union> (set ` columns ` set [table_A, table_C])"
    by blast
  have "concat_uploads ex_excel ex_csv [file_A, file_C]
       = ([], Inr (Some \<lparr>columns = [''Name'', ''Status'', ''Dept''],
                         rows = [[Text ''A1'', Text normal_text, Missing],
                                 [Text ''A2'', Text need_repair_text, Missing],
                                 [Text ''C1'', Missing, Text ''IT'']]\<rparr>))"
    by (simp add: concat_uploads_def load_excel_or_csv_def ex_excel_def ex_csv_def file_A_def
        file_C_def pd_concat_def union_columns_def reindex_row_def row_get_def table_A_def table_C_def)
  with ret h1 h2 h3 show ?thesis by simp
qed

section \<open>Empty results\<close>

text \<open>
  C7, as the claim states it, fails twice. A batch whose only file decodes to a table
  with no row makes \<open>concat_uploads\<close> return that table, not \<open>None\<close>; and with no
  uploaded file the script shows the upload prompt with \<open>st.info\<close>, not a warning, and
  never calls \<open>concat_uploads\<close>.
\<close>

theorem empty_result_counterexample:
  "load_excel_or_csv ex_excel ex_csv (content file_0) = Inr table_0
   \<and> rows table_0 = []
   \<and> snd (concat_uploads ex_excel ex_csv [file_0]) = Inr (Some table_0)
   \<and> snd (concat_uploads ex_excel ex_csv [file_0]) \<noteq> Inr None
   \<and> script_merge ex_excel ex_csv [] = ([St_info upload_prompt_text], No_upload)"
  by (simp add: concat_uploads_def load_excel_or_csv_def ex_excel_def ex_csv_def file_0_def
      pd_concat_def union_columns_def table_0_def script_merge_def)

text \<open>
  C7, amended. \<open>concat_uploads\<close> returns \<open>None\<close> for an empty list of files, and for a
  list that is not empty whose files all decode to well-formed tables with no row it
  returns a table with no row. The script merges only when a file was uploaded: there, a result
  that is \<open>None\<close> or an empty table gets the warning and the run stops. With no uploaded
  file the script shows the upload prompt.
\<close>

theorem empty_result:
  "concat_uploads read_excel read_csv [] = ([], Inr None)
   \<and> script_merge read_excel read_csv [] = ([St_info upload_prompt_text], No_upload)
   \<and> (files \<noteq> [] \<longrightarrow>
        map (\<lambda>f. load_excel_or_csv read_excel read_csv (content f)) files = map Inr tables \<longrightarrow>
        list_all wf_df tables \<longrightarrow> (\<forall>t\<in>set tables. rows t = []) \<longrightarrow>
          concat_uploads read_excel read_csv files
            = ([], Inr (Some \<lparr>columns = union_columns tables, rows = []\<rparr>))
          \<and> script_merge read_excel read_csv files = ([St_warning empty_warning_text], Stopped))
   \<and> (files \<noteq> [] \<longrightarrow> concat_uploads read_excel read_csv files = (shown, Inr None) \<longrightarrow>
        script_merge read_excel read_csv files = (shown @ [St_warning empty_warning_text], Stopped))"
proof -
  have a: "concat_uploads read_excel read_csv [] = ([], Inr None)"
    by (simp add: concat_uploads_def)
  have b: "script_merge read_excel read_csv [] = ([St_info upload_prompt_text], No_upload)"
    by (simp add: script_merge_def)
  have c: "concat_uploads read_excel read_csv files
            = ([], Inr (Some \<lparr>columns = union_columns tables, rows = []\<rparr>))
          \<and> script_merge read_excel read_csv files = ([St_warning empty_warning_text], Stopped)"
    if ne: "files \<noteq> []"
      and dec: "map (\<lambda>f. load_excel_or_csv read_excel read_csv (content f)) files = map Inr tables"
      and zero: "\<forall>t\<in>set tables. rows t = []"
  proof -
    from zero have "concat (map (\<lambda>t. map (reindex_row (columns t) (union_columns tables)) (rows t))
        tables) = []"
      by simp
    with concat_uploads_all [OF ne dec]
    have r: "concat_uploads read_excel read_csv files
        = ([], Inr (Some \<lparr>columns = union_columns tables, rows = []\<rparr>))"
      by simp
    with ne show ?thesis by (simp add: script_merge_def empty_df_def)
  qed
  have d: "script_merge read_excel read_csv files = (shown @ [St_warning empty_warning_text], Stopped)"
    if "files \<noteq> []" and "concat_uploads read_excel read_csv files = (shown, Inr None)"
    using that by (simp add: script_merge_def)
  from a b c d show ?thesis by blast
qed

theorem empty_result_witness:
  "[file_0] \<noteq> []
   \<and> map (\<lambda>f. load_excel_or_csv ex_excel ex_csv (content f)) [file_0] = map Inr [table_0]
   \<and> list_all wf_df [table_0]
   \<and> list_all (\<lambda>t. rows t = []) [table_0]
   \<and> concat_uploads ex_excel ex_csv [file_0] = ([], Inr (Some table_0))
   \<and> script_merge ex_excel ex_csv [file_0] = ([St_warning empty_warning_text], Stopped)"
proof -
  have h1: "[file_0] \<noteq> []" by simp
  have h2: "map (\<lambda>f. load_excel_or_csv ex_excel ex_csv (content f)) [file_0] = map Inr [table_0]"
    by (simp add: load_excel_or_csv_def ex_excel_def ex_csv_def file_0_def)
  have h3: "\<forall>t\<in>set [table_0]. rows t = []" by (simp add: table_0_def)
  have h4: "list_all wf_df [table_0]" by (simp add: wf_df_def table_0_def)
  have u: "\<lparr>columns = union_columns [table_0], rows = []\<rparr> = table_0"
    by (simp add: union_columns_def table_0_def)
  from empty_result [of ex_excel ex_csv "[file_0]" "[table_0]"] h1 h2 h3 h4
  have "concat_uploads ex_excel ex_csv [file_0]
            = ([], Inr (Some \<lparr>columns = union_columns [table_0], rows = []\<rparr>))
        \<and> script_merge ex_excel ex_csv [file_0] = ([St_warning empty_warning_text], Stopped)"
    by blast
  with u h1 h2 h3 h4 show ?thesis by simp
qed

section \<open>Status counts\<close>

text \<open>
  C4. For a status column of the table, both counts are returned, the number of rows
  needing repair plus the number of rows to dispose of is at most the number of rows,
  and the two are equal exactly when the status cell of every row is one of the two
  texts.
\<close>

theorem status_counts:
  assumes "status_col \<in> set (columns df)"
  shows "\<exists>n d. need_repair df status_col = Inr n \<and> to_dispose df status_col = Inr d
     \<and> n + d \<le> total_devices df
     \<and> (n + d = total_devices df \<longleftrightarrow>
          (\<forall>r\<in>set (rows df). cell_of df r status_col = Text need_repair_text
                             \<or> cell_of df r status_col = Text to_dispose_text))"
proof -
  let ?series = "map (\<lambda>r. cell_of df r status_col) (rows df)"
  let ?n = "length (filter (\<lambda>v. v = Text need_repair_text) ?series)"
  let ?d = "length (filter (\<lambda>v. v = Text to_dispose_text) ?series)"
  from assms have n: "need_repair df status_col = Inr ?n"
    and d: "to_dispose df status_col = Inr ?d"
    by (simp_all add: need_repair_def to_dispose_def count_equal_def getitem_def)
  have "\<not> (v = Text need_repair_text \<and> v = Text to_dispose_text)" for v :: "'a cell"
    using status_texts_differ by auto
  from two_filters [of "\<lambda>v. v = Text need_repair_text" "\<lambda>v. v = Text to_dispose_text" ?series, OF this]
  have "?n + ?d \<le> length ?series"
    and "?n + ?d = length ?series \<longleftrightarrow>
      (\<forall>v\<in>set ?series. v = Text need_repair_text \<or> v = Text to_dispose_text)"
    by blast+
  then have "?n + ?d \<le> total_devices df"
    and "?n + ?d = total_devices df \<longleftrightarrow>
      (\<forall>r\<in>set (rows df). cell_of df r status_col = Text need_repair_text
                         \<or> cell_of df r status_col = Text to_dispose_text)"
    by (simp_all add: total_devices_def len_def)
  with n d show ?thesis by blast
qed

theorem status_counts_witness:
  "''Status'' \<in> set (columns table_AB)
   \<and> total_devices table_AB = 3
   \<and> need_repair table_AB ''Status'' = Inr 1
   \<and> to_dispose table_AB ''Status'' = Inr 1"
proof -
  have h: "''Status'' \<in> set (columns table_AB)" by (simp add: table_AB_def)
  from status_counts [OF h] obtain n d where
    "need_repair table_AB ''Status'' = Inr n" and "to_dispose table_AB ''Status'' = Inr d"
    and "n + d \<le> total_devices table_AB"
    by blast
  moreover have "total_devices table_AB = 3" by (simp add: total_devices_def len_def table_AB_def)
  moreover have "need_repair table_AB ''Status'' = Inr 1"
    by (simp add: need_repair_def count_equal_def getitem_def cell_of_def row_get_def table_AB_def
        need_repair_text_def to_dispose_text_def normal_text_def)
  moreover have "to_dispose table_AB ''Status'' = Inr 1"
    by (simp add: to_dispose_def count_equal_def getitem_def cell_of_def row_get_def table_AB_def
        need_repair_text_def to_dispose_text_def normal_text_def)
  ultimately show ?thesis using h by simp
qed

section \<open>Grouped counts\<close>

text \<open>
  For a grouping column of the table that is not called \<open>count\<close>, the groups partition
  the rows: the counts add up to the number of rows, no key occurs twice, the keys are
  the cells of the column (the missing value among them when a row has it), and each
  count is the number of rows with that key.
\<close>

lemma dept_count_partition:
  assumes "dept_col \<in> set (columns df)" and "dept_col \<noteq> ''count''"
  shows "\<exists>groups. dept_count df dept_col = Inr groups
     \<and> sum_list (map snd groups) = len df
     \<and> distinct (map fst groups)
     \<and> set (map fst groups) = (\<lambda>r. cell_of df r dept_col) ` set (rows df)
     \<and> (\<forall>(k, n)\<in>set groups. n = length (filter (\<lambda>r. cell_of df r dept_col = k) (rows df)))"
proof -
  let ?series = "map (\<lambda>r. cell_of df r dept_col) (rows df)"
  let ?groups = "map (\<lambda>k. (k, count_list ?series k)) (remdups ?series)"
  from assms have "dept_count df dept_col = Inr ?groups"
    by (simp add: dept_count_def groupby_size_def getitem_def reset_index_def)
  moreover have "sum_list (map snd ?groups) = len df"
    using sum_count_remdups [of ?series] by (simp add: comp_def len_def)
  moreover have "distinct (map fst ?groups)" by (simp add: comp_def)
  moreover have "set (map fst ?groups) = (\<lambda>r. cell_of df r dept_col) ` set (rows df)"
    by (simp add: comp_def)
  moreover have "\<forall>(k, n)\<in>set ?groups. n = length (filter (\<lambda>r. cell_of df r dept_col = k) (rows df))"
    by (auto simp: count_list_eq_length_filter filter_map comp_def eq_commute
        intro!: arg_cong [where f = length] filter_cong)
  ultimately show ?thesis by blast
qed

lemma type_count_eq_dept_count: "type_count df col = dept_count df col"
  by (simp add: type_count_def dept_count_def)

text \<open>
  C5 fails on the code for a grouping column called \<open>count\<close>: \<open>reset_index(name="count")\<close>
  raises \<open>ValueError\<close>, so \<open>dept_count\<close> (and \<open>type_count\<close>) is no aggregation at all.
\<close>

theorem dept_count_named_count:
  "dept_count table_count ''count'' = Inl (ValueError ''cannot insert count, already exists'')"
  by (simp add: dept_count_def groupby_size_def getitem_def reset_index_def table_count_def)

section \<open>The PDF without its font\<close>

text \<open>
  C6. When \<open>get_font_path\<close> returns \<open>None\<close>, it has shown a warning with the exception of
  the download, \<open>build_repair_pdf\<close> returns \<open>None\<close>, and the button shows the error that
  the PDF could not be made and offers nothing for download. And when
  \<open>build_repair_pdf\<close> returns a document, \<open>get_font_path\<close> returned a font path and the
  document is what the renderer made with that font.
\<close>

theorem build_repair_pdf_font:
  "(get_font_path env = (env', shown, None) \<longrightarrow>
      (\<exists>exc. download env = Some exc \<and> shown = [St_warning (font_warning_text @ exc_text exc)])
      \<and> build_repair_pdf str_num render env df status_col = (env', shown, Inr None)
      \<and> pdf_button str_num render env df status_col
          = (env', shown @ [St_error pdf_failed_text], Inr None))
   \<and> (build_repair_pdf str_num render env df status_col = (env', shown, Inr (Some doc)) \<longrightarrow>
      (\<exists>path lines. get_font_path env = (env', shown, Some path) \<and> path \<noteq> []
         \<and> render path pdf_title lines = Inr doc))"
proof -
  have a: "(\<exists>exc. download env = Some exc \<and> shown = [St_warning (font_warning_text @ exc_text exc)])
      \<and> build_repair_pdf str_num render env df status_col = (env', shown, Inr None)
      \<and> pdf_button str_num render env df status_col
          = (env', shown @ [St_error pdf_failed_text], Inr None)"
    if "get_font_path env = (env', shown, None)"
  proof -
    from that have "\<exists>exc. download env = Some exc \<and> shown = [St_warning (font_warning_text @ exc_text exc)]"
      by (auto simp: get_font_path_def split: if_splits option.splits)
    moreover from that have b: "build_repair_pdf str_num render env df status_col = (env', shown, Inr None)"
      by (simp add: build_repair_pdf_def)
    moreover from b have "pdf_button str_num render env df status_col
          = (env', shown @ [St_error pdf_failed_text], Inr None)"
      by (simp add: pdf_button_def)
    ultimately show ?thesis by blast
  qed
  have b: "\<exists>path lines. get_font_path env = (env', shown, Some path) \<and> path \<noteq> []
         \<and> render path pdf_title lines = Inr doc"
    if "build_repair_pdf str_num render env df status_col = (env', shown, Inr (Some doc))"
  proof -
    obtain e1 s1 p1 where g: "get_font_path env = (e1, s1, p1)" by (cases "get_font_path env") auto
    show ?thesis
    proof (cases p1)
      case None
      with g that show ?thesis by (simp add: build_repair_pdf_def)
    next
      case (Some path)
      with g that show ?thesis
        by (auto simp: build_repair_pdf_def split: if_splits sum.splits)
    qed
  qed
  from a b show ?thesis by blast
qed

theorem build_repair_pdf_font_witness:
  "get_font_path env_offline
     = (env_offline, [St_warning (font_warning_text @ ''Network is unreachable'')], None)
   \<and> build_repair_pdf ex_str_num ex_render env_offline table_AB ''Status''
     = (env_offline, [St_warning (font_warning_text @ ''Network is unreachable'')], Inr None)
   \<and> pdf_button ex_str_num ex_render env_offline table_AB ''Status''
     = (env_offline, [St_warning (font_warning_text @ ''Network is unreachable''),
                      St_error pdf_failed_text], Inr None)"
proof -
  have h: "get_font_path env_offline
     = (env_offline, [St_warning (font_warning_text @ ''Network is unreachable'')], None)"
    by (simp add: get_font_path_def env_offline_def)
  from build_repair_pdf_font [of env_offline env_offline _ ex_str_num ex_render table_AB "''Status''"] h
  show ?thesis by simp
qed

section \<open>The serial number rule\<close>

text \<open>
  C3, as the claim states it, fails on a missing cell of the serial column when pandas 3
  or later is installed: \<open>astype(str)\<close> leaves the cell missing, and so does the
  concatenation, so the cell is not the fixed text followed by the text of the cell.
\<close>

theorem apply_serial_rule_missing_counterexample:
  "serial_cols table_gap = [''Serial'']
   \<and> apply_serial_rule From_3 ex_str_num table_gap ''prefix=HQ-''
       = Inr \<lparr>columns = [''Name'', ''Serial''],
              rows = [[Text ''PC'', Text ''HQ-001''], [Text ''TV'', Missing], [Text ''AP'', Text ''HQ-7'']]\<rparr>
   \<and> apply_serial_rule From_3 ex_str_num table_gap ''prefix=HQ-''
       \<noteq> Inr \<lparr>columns = [''Name'', ''Serial''],
              rows = [[Text ''PC'', Text ''HQ-001''],
                      [Text ''TV'', Text (''HQ-'' @ str_cell ex_str_num Missing)],
                      [Text ''AP'', Text ''HQ-7'']]\<rparr>"
proof -
  have "apply_serial_rule From_3 ex_str_num table_gap (''prefix='' @ ''HQ-'')
       = Inr \<lparr>columns = [''Name'', ''Serial''],
              rows = [[Text ''PC'', Text ''HQ-001''], [Text ''TV'', Missing], [Text ''AP'', Text ''HQ-7'']]\<rparr>"
    unfolding apply_prefix [OF serial_cols_table_gap]
    by (simp add: table_gap_def set_cell_def cell_of_def row_get_def ex_str_num_7)
  then show ?thesis by (simp add: serial_cols_table_gap)
qed

text \<open>
  C3, amended. In a table with a selected serial column, the rule \<open>prefix=\<close> followed by
  a text replaces each cell of that column that is not missing by the text followed by
  \<open>str\<close> of the cell, and the rule \<open>suffix=\<close> followed by a text replaces it by \<open>str\<close> of
  the cell followed by the text. A missing cell becomes the text with \<open>nan\<close> behind or in
  front of it when pandas is older than 3, and stays missing from pandas 3 on. Every
  other cell stays.
\<close>

theorem apply_serial_rule_prefix_suffix:
  assumes "wf_df df" and "serial_cols df = col # others"
  shows "apply_serial_rule pd str_num df (''prefix='' @ t)
       = Inr (df\<lparr>rows := map (\<lambda>r. map (\<lambda>(c, x). if c = col then
                   (case x of Text s \<Rightarrow> Text (t @ s) | Num n \<Rightarrow> Text (t @ str_num n)
                    | Missing \<Rightarrow> (case pd of Before_3 \<Rightarrow> Text (t @ ''nan'') | From_3 \<Rightarrow> Missing))
                   else x) (zip (columns df) r)) (rows df)\<rparr>)
     \<and> apply_serial_rule pd str_num df (''suffix='' @ t)
       = Inr (df\<lparr>rows := map (\<lambda>r. map (\<lambda>(c, x). if c = col then
                   (case x of Text s \<Rightarrow> Text (s @ t) | Num n \<Rightarrow> Text (str_num n @ t)
                    | Missing \<Rightarrow> (case pd of Before_3 \<Rightarrow> Text (''nan'' @ t) | From_3 \<Rightarrow> Missing))
                   else x) (zip (columns df) r)) (rows df)\<rparr>)"
proof -
  from assms(1) have di: "distinct (columns df)" by (simp add: wf_df_def)
  have gp: "(case astype_str_cell pd str_num x of Some s \<Rightarrow> Text (t @ s) | None \<Rightarrow> Missing)
      = (case x of Text s \<Rightarrow> Text (t @ s) | Num n \<Rightarrow> Text (t @ str_num n)
         | Missing \<Rightarrow> (case pd of Before_3 \<Rightarrow> Text (t @ ''nan'') | From_3 \<Rightarrow> Missing))"
    for x :: "'a cell"
    by (cases x; cases pd) simp_all
  have gs: "(case astype_str_cell pd str_num x of Some s \<Rightarrow> Text (s @ t) | None \<Rightarrow> Missing)
      = (case x of Text s \<Rightarrow> Text (s @ t) | Num n \<Rightarrow> Text (str_num n @ t)
         | Missing \<Rightarrow> (case pd of Before_3 \<Rightarrow> Text (''nan'' @ t) | From_3 \<Rightarrow> Missing))"
    for x :: "'a cell"
    by (cases x; cases pd) simp_all
  let ?P = "\<lambda>x. case x of Text s \<Rightarrow> Text (t @ s) | Num n \<Rightarrow> Text (t @ str_num n)
               | Missing \<Rightarrow> (case pd of Before_3 \<Rightarrow> Text (t @ ''nan'') | From_3 \<Rightarrow> Missing)"
  let ?S = "\<lambda>x. case x of Text s \<Rightarrow> Text (s @ t) | Num n \<Rightarrow> Text (str_num n @ t)
               | Missing \<Rightarrow> (case pd of Before_3 \<Rightarrow> Text (''nan'' @ t) | From_3 \<Rightarrow> Missing)"
  have p: "set_cell (columns df) col (?P (cell_of df r col)) r
      = map (\<lambda>(c, x). if c = col then ?P x else x) (zip (columns df) r)" for r
    by (rule set_cell_by_cell [OF di, of col ?P])
  have q: "set_cell (columns df) col (?S (cell_of df r col)) r
      = map (\<lambda>(c, x). if c = col then ?S x else x) (zip (columns df) r)" for r
    by (rule set_cell_by_cell [OF di, of col ?S])
  show ?thesis
    by (simp only: apply_prefix [OF assms(2)] apply_suffix [OF assms(2)] p q gp gs simp_thms)
qed

theorem apply_serial_rule_prefix_suffix_witness:
  "wf_df table_gap
   \<and> serial_cols table_gap = [''Serial'']
   \<and> apply_serial_rule Before_3 ex_str_num table_gap ''prefix=HQ-''
       = Inr \<lparr>columns = [''Name'', ''Serial''],
              rows = [[Text ''PC'', Text ''HQ-001''], [Text ''TV'', Text ''HQ-nan''],
                      [Text ''AP'', Text ''HQ-7'']]\<rparr>
   \<and> apply_serial_rule From_3 ex_str_num table_gap ''prefix=HQ-''
       = Inr \<lparr>columns = [''Name'', ''Serial''],
              rows = [[Text ''PC'', Text ''HQ-001''], [Text ''TV'', Missing], [Text ''AP'', Text ''HQ-7'']]\<rparr>
   \<and> apply_serial_rule Before_3 ex_str_num table_gap ''suffix=-2025''
       = Inr \<lparr>columns = [''Name'', ''Serial''],
              rows = [[Text ''PC'', Text ''001-2025''], [Text ''TV'', Text ''nan-2025''],
                      [Text ''AP'', Text ''7-2025'']]\<rparr>
   \<and> apply_serial_rule From_3 ex_str_num table_gap ''suffix=-2025''
       = Inr \<lparr>columns = [''Name'', ''Serial''],
              rows = [[Text ''PC'', Text ''001-2025''], [Text ''TV'', Missing],
                      [Text ''AP'', Text ''7-2025'']]\<rparr>"
proof -
  have h1: "wf_df table_gap" by (simp add: wf_df_def table_gap_def)
  have h2: "serial_cols table_gap = [''Serial'']" by (rule serial_cols_table_gap)
  have n: "ex_str_num 7 = ''7''" by (rule ex_str_num_7)
  from apply_serial_rule_prefix_suffix [OF h1 h2, of Before_3 ex_str_num "''HQ-''"]
    apply_serial_rule_prefix_suffix [OF h1 h2, of From_3 ex_str_num "''HQ-''"]
    apply_serial_rule_prefix_suffix [OF h1 h2, of Before_3 ex_str_num "''-2025''"]
    apply_serial_rule_prefix_suffix [OF h1 h2, of From_3 ex_str_num "''-2025''"]
  have "apply_serial_rule Before_3 ex_str_num table_gap ''prefix=HQ-''
       = Inr \<lparr>columns = [''Name'', ''Serial''],
              rows = [[Text ''PC'', Text ''HQ-001''], [Text ''TV'', Text ''HQ-nan''],
                      [Text ''AP'', Text ''HQ-7'']]\<rparr>"
    and "apply_serial_rule From_3 ex_str_num table_gap ''prefix=HQ-''
       = Inr \<lparr>columns = [''Name'', ''Serial''],
              rows = [[Text ''PC'', Text ''HQ-001''], [Text ''TV'', Missing], [Text ''AP'', Text ''HQ-7'']]\<rparr>"
    and "apply_serial_rule Before_3 ex_str_num table_gap ''suffix=-2025''
       = Inr \<lparr>columns = [''Name'', ''Serial''],
              rows = [[Text ''PC'', Text ''001-2025''], [Text ''TV'', Text ''nan-2025''],
                      [Text ''AP'', Text ''7-2025'']]\<rparr>"
    and "apply_serial_rule From_3 ex_str_num table_gap ''suffix=-2025''
       = Inr \<lparr>columns = [''Name'', ''Serial''],
              rows = [[Text ''PC'', Text ''001-2025''], [Text ''TV'', Missing],
                      [Text ''AP'', Text ''7-2025'']]\<rparr>"
    by (simp_all add: table_gap_def n)
  with h1 h2 show ?thesis by simp
qed

text \<open>
  C9. \<open>apply_serial_rule\<close> returns the table as it is, with no exception, when no column
  label holds \<open>serial\<close> in any case or the Korean token, and when the rule is empty or
  starts with neither \<open>prefix=\<close> nor \<open>suffix=\<close>. When several labels match, the first of
  them in column order is the one selected: whatever the rule, the cells under every
  other label, the later matches among them, stay as they were.
\<close>

theorem apply_serial_rule_identity:
  "((\<forall>c\<in>set (columns df). \<not> py_in ''serial'' (lower c) \<and> \<not> py_in serial_token c) \<longrightarrow>
      apply_serial_rule pd str_num df rule = Inr df)
   \<and> (\<not> startswith rule ''prefix='' \<and> \<not> startswith rule ''suffix='' \<longrightarrow>
      apply_serial_rule pd str_num df rule = Inr df)
   \<and> apply_serial_rule pd str_num df [] = Inr df
   \<and> (columns df = pre @ c # post \<and> (\<forall>p\<in>set pre. \<not> is_serial_col p) \<and> is_serial_col c \<longrightarrow>
      serial_cols df = c # filter is_serial_col post
      \<and> (\<exists>df'. apply_serial_rule pd str_num df rule = Inr df'
            \<and> columns df' = columns df \<and> length (rows df') = length (rows df)
            \<and> (\<forall>i<length (rows df). \<forall>d. d \<noteq> c \<longrightarrow>
                 row_get (columns df) (rows df' ! i) d = row_get (columns df) (rows df ! i) d)))"
proof -
  have a: "apply_serial_rule pd str_num df rule = Inr df"
    if "\<forall>c\<in>set (columns df). \<not> py_in ''serial'' (lower c) \<and> \<not> py_in serial_token c"
  proof -
    from that have "serial_cols df = []"
      by (simp add: serial_cols_def is_serial_col_def filter_empty_conv)
    then show ?thesis by (rule apply_no_serial)
  qed
  have b: "apply_serial_rule pd str_num df rule = Inr df"
    if "\<not> startswith rule ''prefix='' \<and> \<not> startswith rule ''suffix=''"
    using that by (simp add: apply_other)
  have e: "apply_serial_rule pd str_num df [] = Inr df"
    by (rule apply_other) (simp_all add: startswith_def)
  have f: "serial_cols df = c # filter is_serial_col post
      \<and> (\<exists>df'. apply_serial_rule pd str_num df rule = Inr df'
            \<and> columns df' = columns df \<and> length (rows df') = length (rows df)
            \<and> (\<forall>i<length (rows df). \<forall>d. d \<noteq> c \<longrightarrow>
                 row_get (columns df) (rows df' ! i) d = row_get (columns df) (rows df ! i) d))"
    if cols: "columns df = pre @ c # post" and pre: "\<forall>p\<in>set pre. \<not> is_serial_col p"
      and c: "is_serial_col c"
  proof -
    from pre have "filter is_serial_col pre = []" by (simp add: filter_empty_conv)
    with cols c have sel: "serial_cols df = c # filter is_serial_col post"
      by (simp add: serial_cols_def)
    from apply_serial_rule_shape [OF sel, of pd str_num rule]
    have "\<exists>df'. apply_serial_rule pd str_num df rule = Inr df'
            \<and> columns df' = columns df \<and> length (rows df') = length (rows df)
            \<and> (\<forall>i<length (rows df). \<forall>d. d \<noteq> c \<longrightarrow>
                 row_get (columns df) (rows df' ! i) d = row_get (columns df) (rows df ! i) d)"
    proof
      assume "apply_serial_rule pd str_num df rule = Inr df"
      then show ?thesis by simp
    next
      assume "\<exists>h. apply_serial_rule pd str_num df rule
            = Inr (df\<lparr>rows := map (\<lambda>r. set_cell (columns df) c (h r) r) (rows df)\<rparr>)"
      then obtain h where "apply_serial_rule pd str_num df rule
            = Inr (df\<lparr>rows := map (\<lambda>r. set_cell (columns df) c (h r) r) (rows df)\<rparr>)" ..
      then show ?thesis by (simp add: row_get_set_cell)
    qed
    with sel show ?thesis ..
  qed
  from a b e f show ?thesis by blast
qed

theorem apply_serial_rule_identity_witness:
  "list_all (\<lambda>c. \<not> py_in ''serial'' (lower c) \<and> \<not> py_in serial_token c) (columns table_AB)
   \<and> apply_serial_rule From_3 ex_str_num table_AB ''prefix=HQ-'' = Inr table_AB
   \<and> \<not> startswith ''HQ-'' ''prefix='' \<and> \<not> startswith ''HQ-'' ''suffix=''
   \<and> apply_serial_rule From_3 ex_str_num table_serial ''HQ-'' = Inr table_serial
   \<and> columns table_serial = [''Name''] @ ''Serial'' # [''serial2'']
   \<and> list_all (\<lambda>p. \<not> is_serial_col p) [''Name''] \<and> is_serial_col ''Serial'' \<and> is_serial_col ''serial2''
   \<and> serial_cols table_serial = ''Serial'' # filter is_serial_col [''serial2'']"
proof -
  have h1: "\<forall>c\<in>set (columns table_AB). \<not> py_in ''serial'' (lower c) \<and> \<not> py_in serial_token c"
    using no_serial_table_AB by (simp only: list_all_iff)
  have h2: "\<not> startswith ''HQ-'' ''prefix='' \<and> \<not> startswith ''HQ-'' ''suffix=''"
    by (simp add: startswith_def)
  have h3: "columns table_serial = [''Name''] @ ''Serial'' # [''serial2'']"
    by (simp add: table_serial_def)
  have h4: "\<forall>p\<in>set [''Name'']. \<not> is_serial_col p"
    by (simp add: is_serial_col_examples)
  have h5: "is_serial_col ''Serial''" "is_serial_col ''serial2''"
    by (rule is_serial_col_examples)+
  from apply_serial_rule_identity [of table_AB From_3 ex_str_num "''prefix=HQ-''"] h1
  have r1: "apply_serial_rule From_3 ex_str_num table_AB ''prefix=HQ-'' = Inr table_AB" by blast
  from apply_serial_rule_identity [of table_serial From_3 ex_str_num "''HQ-''" "[''Name'']" "''Serial''" "[''serial2'']"]
    h2 h3 h4 h5
  have r2: "apply_serial_rule From_3 ex_str_num table_serial ''HQ-'' = Inr table_serial"
    and r3: "serial_cols table_serial = ''Serial'' # filter is_serial_col [''serial2'']"
    by blast+
  from h1 h4 have "list_all (\<lambda>c. \<not> py_in ''serial'' (lower c) \<and> \<not> py_in serial_token c) (columns table_AB)"
    and "list_all (\<lambda>p. \<not> is_serial_col p) [''Name'']"
    by (simp_all only: list_all_iff)
  with r1 r2 r3 h2 h3 h5 show ?thesis by blast
qed

text \<open>
  C10. On a table with distinct labels and full rows, whatever the rule,
  \<open>apply_serial_rule\<close> returns a table with the same columns, the same number of rows
  and rows of the same width; with no serial column it is the table itself, and
  otherwise every cell of every row that is not under the selected label, the first
  serial label in column order, is the cell the table had at that place.
\<close>

theorem apply_serial_rule_frame:
  assumes "wf_df df"
  shows "\<exists>df'. apply_serial_rule pd str_num df rule = Inr df'
     \<and> columns df' = columns df \<and> len df' = len df \<and> wf_df df'
     \<and> (serial_cols df = [] \<longrightarrow> df' = df)
     \<and> (\<forall>col others. serial_cols df = col # others \<longrightarrow>
          (\<forall>i<len df. \<forall>j<length (columns df). columns df ! j \<noteq> col \<longrightarrow>
             rows df' ! i ! j = rows df ! i ! j))"
proof (cases "serial_cols df")
  case Nil
  then have "apply_serial_rule pd str_num df rule = Inr df" by (rule apply_no_serial)
  with Nil assms show ?thesis by simp
next
  case (Cons col others)
  from assms have len_row: "\<And>r. r \<in> set (rows df) \<Longrightarrow> length r = length (columns df)"
    and di: "distinct (columns df)"
    by (auto simp: wf_df_def list_all_iff)
  from apply_serial_rule_shape [OF Cons, of pd str_num rule] show ?thesis
  proof
    assume "apply_serial_rule pd str_num df rule = Inr df"
    with Cons assms show ?thesis by simp
  next
    assume "\<exists>h. apply_serial_rule pd str_num df rule
          = Inr (df\<lparr>rows := map (\<lambda>r. set_cell (columns df) col (h r) r) (rows df)\<rparr>)"
    then obtain h where r: "apply_serial_rule pd str_num df rule
          = Inr (df\<lparr>rows := map (\<lambda>r. set_cell (columns df) col (h r) r) (rows df)\<rparr>)" ..
    let ?df' = "df\<lparr>rows := map (\<lambda>r. set_cell (columns df) col (h r) r) (rows df)\<rparr>"
    have wf': "wf_df ?df'"
      using di len_row by (simp add: wf_df_def list_all_iff length_set_cell)
    have cells: "rows ?df' ! i ! j = rows df ! i ! j"
      if "i < len df" and "j < length (columns df)" and "columns df ! j \<noteq> col" for i j
    proof -
      from that(1) have "rows df ! i \<in> set (rows df)" by (simp add: len_def)
      then have "length (rows df ! i) = length (columns df)" by (rule len_row)
      with that show ?thesis by (simp add: len_def nth_set_cell)
    qed
    from r wf' cells Cons show ?thesis by (auto simp: len_def)
  qed
qed

theorem apply_serial_rule_frame_witness:
  "wf_df table_serial
   \<and> apply_serial_rule From_3 ex_str_num table_serial ''suffix=-2025''
       = Inr \<lparr>columns = [''Name'', ''Serial'', ''serial2''],
              rows = [[Text ''PC'', Text ''001-2025'', Text ''x''], [Text ''TV'', Text ''7-2025'', Missing]]\<rparr>
   \<and> len table_serial = 2"
proof -
  have h: "wf_df table_serial" by (simp add: wf_df_def table_serial_def)
  from apply_serial_rule_frame [OF h, of From_3 ex_str_num "''suffix=-2025''"] obtain df' where
    r: "apply_serial_rule From_3 ex_str_num table_serial ''suffix=-2025'' = Inr df'"
    and c: "columns df' = columns table_serial" and l: "len df' = len table_serial"
    by blast
  have sel: "serial_cols table_serial = [''Serial'', ''serial2'']"
    by (rule serial_cols_table_serial)
  have n: "ex_str_num 7 = ''7''" by (rule ex_str_num_7)
  have "apply_serial_rule From_3 ex_str_num table_serial (''suffix='' @ ''-2025'')
       = Inr \<lparr>columns = [''Name'', ''Serial'', ''serial2''],
              rows = [[Text ''PC'', Text ''001-2025'', Text ''x''], [Text ''TV'', Text ''7-2025'', Missing]]\<rparr>"
    unfolding apply_suffix [OF sel]
    by (simp add: table_serial_def set_cell_def cell_of_def row_get_def n)
  then have v: "apply_serial_rule From_3 ex_str_num table_serial ''suffix=-2025''
       = Inr \<lparr>columns = [''Name'', ''Serial'', ''serial2''],
              rows = [[Text ''PC'', Text ''001-2025'', Text ''x''], [Text ''TV'', Text ''7-2025'', Missing]]\<rparr>"
    by simp
  with r l have "len table_serial = 2" by (auto simp: len_def)
  with h v show ?thesis by simp
qed

end
